theory Spec2Isabelle
  imports Complex_Main "HOL-Library.Word"
begin

section \<open>Python values and exceptions\<close>

text \<open>
  The module \<^verbatim>\<open>functions.py\<close> computes with Python floats. It is modelled twice.
  In the first model, of this and the following sections, a float is a real number and
  every arithmetic operation is the exact one; it carries the statements that do not depend
  on rounding. The second model, in the sections on double precision, rounds the result of
  every operation to the nearest double; it carries the statements about computed values.
  Both keep the exceptions Python raises: a float division by zero
  raises \<^verbatim>\<open>ZeroDivisionError\<close>, and \<^verbatim>\<open>math.sqrt\<close> of a negative number raises
  \<^verbatim>\<open>ValueError\<close> ("math domain error"). Indexing a data frame by a column it does not have
  raises \<^verbatim>\<open>KeyError\<close>; \<^verbatim>\<open>math.pow\<close> with an infinite result and \<^verbatim>\<open>int\<close> of an
  infinite float raise \<^verbatim>\<open>OverflowError\<close>, which only the second model can meet. The functions \<^verbatim>\<open>sin\<close>, \<^verbatim>\<open>cos\<close>, \<^verbatim>\<open>tan\<close> and \<^verbatim>\<open>atan\<close>
  of the \<^verbatim>\<open>math\<close> module never raise on a finite argument; they are the total functions
  \<^const>\<open>sin\<close>, \<^const>\<open>cos\<close>, \<^const>\<open>tan\<close> and \<^const>\<open>arctan\<close>.
\<close>

datatype error = ZeroDivisionError | ValueError | KeyError | OverflowError

definition math_sqrt :: "real \<Rightarrow> error + real" where
  "math_sqrt x = (if x < 0 then Inl ValueError else Inr (sqrt x))"

definition float_div :: "real \<Rightarrow> real \<Rightarrow> error + real" where
  "float_div x y = (if y = 0 then Inl ZeroDivisionError else Inr (x / y))"

text \<open>Python's \<^verbatim>\<open>int\<close> of a float drops the fractional part, rounding towards zero.\<close>

definition py_int :: "real \<Rightarrow> int" where
  "py_int x = (if 0 \<le> x then \<lfloor>x\<rfloor> else \<lceil>x\<rceil>)"

section \<open>Constants of the module\<close>

text \<open>
  The two epochs are ISO 8601 strings, \<^verbatim>\<open>'2021-01-01T00:00:00+00:00'\<close> and
  \<^verbatim>\<open>'2021-04-17T14:00:00+00:00'\<close>, that \<^verbatim>\<open>pendulum.parse\<close> turns into instants. An
  instant is modelled as its number of seconds since 1970-01-01T00:00:00 UTC; a parsed
  timestamp is the record of its calendar fields (both strings carry the offset
  \<^verbatim>\<open>+00:00\<close>), and \<open>pendulum_parse\<close> places it on the time line with the rules of the
  proleptic Gregorian calendar.
\<close>

record datetime =
  dt_year :: int
  dt_month :: int
  dt_day :: int
  dt_hour :: int
  dt_minute :: int
  dt_second :: int

definition START_ORBIT_TIMESTAMP :: datetime where
  "START_ORBIT_TIMESTAMP =
     \<lparr>dt_year = 2021, dt_month = 1, dt_day = 1, dt_hour = 0, dt_minute = 0, dt_second = 0\<rparr>"

definition START_ARRIVAL_TIMESTAMP :: datetime where
  "START_ARRIVAL_TIMESTAMP =
     \<lparr>dt_year = 2021, dt_month = 4, dt_day = 17, dt_hour = 14, dt_minute = 0, dt_second = 0\<rparr>"

definition AU_MULTIPLIER :: real where
  "AU_MULTIPLIER = 149.597871"

definition is_leap :: "int \<Rightarrow> bool" where
  "is_leap y = (y mod 4 = 0 \<and> (y mod 100 \<noteq> 0 \<or> y mod 400 = 0))"

definition days_before_year :: "int \<Rightarrow> int" where
  "days_before_year y = 365 * (y - 1) + (y - 1) div 4 - (y - 1) div 100 + (y - 1) div 400"

definition days_in_month :: "int \<Rightarrow> int \<Rightarrow> int" where
  "days_in_month y m =
     (if m = 2 then (if is_leap y then 29 else 28)
      else if m = 4 \<or> m = 6 \<or> m = 9 \<or> m = 11 then 30 else 31)"

definition days_before_month :: "int \<Rightarrow> int \<Rightarrow> int" where
  "days_before_month y m = sum_list (map (days_in_month y) [1 ..< nat m])"

definition ordinal :: "int \<Rightarrow> int \<Rightarrow> int \<Rightarrow> int" where
  "ordinal y m d = days_before_year y + days_before_month y m + d"

definition pendulum_parse :: "datetime \<Rightarrow> real" where
  "pendulum_parse t =
     of_int ((ordinal (dt_year t) (dt_month t) (dt_day t) - ordinal 1970 1 1) * 86400
             + dt_hour t * 3600 + dt_minute t * 60 + dt_second t)"

section \<open>The solver loop for Kepler's equation\<close>

text \<open>
  Lines 41 to 47 of \<^verbatim>\<open>position_at_adalia_day\<close>:
  \<^verbatim>\<open>
    E = M
    last_diff = 1
    while last_diff > 0.0000001:
        E1 = M + (e * sin(E))
        last_diff = np.abs(E1 - E)
        E = E1
  \<close>
  The loop has no iteration bound, so it is a partial function: \<open>None\<close> is the loop
  that never ends, \<open>Some E\<close> the value of \<^verbatim>\<open>E\<close> when it is left.
\<close>

partial_function (option) kepler_loop :: "real \<Rightarrow> real \<Rightarrow> real \<Rightarrow> real \<Rightarrow> real option" where
  "kepler_loop M e E last_diff =
     (if last_diff > 0.0000001
      then (let E1 = M + (e * sin E) in kepler_loop M e E1 \<bar>E1 - E\<bar>)
      else Some E)"

definition kepler_solver :: "real \<Rightarrow> real \<Rightarrow> real option" where
  "kepler_solver M e = kepler_loop M e M 1"

text \<open>
  The iteration as the specification words it: \<open>E0 = M\<close> and
  \<open>E_next = M + e*sin(E_current)\<close>. \<open>kepler_diff n\<close> is the value of \<^verbatim>\<open>last_diff\<close>
  after \<open>n\<close> passes through the loop body (1 before the first).
\<close>

primrec kepler_iterate :: "real \<Rightarrow> real \<Rightarrow> nat \<Rightarrow> real" where
  "kepler_iterate M e 0 = M"
| "kepler_iterate M e (Suc n) = M + e * sin (kepler_iterate M e n)"

primrec kepler_diff :: "real \<Rightarrow> real \<Rightarrow> nat \<Rightarrow> real" where
  "kepler_diff M e 0 = 1"
| "kepler_diff M e (Suc n) = \<bar>kepler_iterate M e (Suc n) - kepler_iterate M e n\<bar>"

section \<open>Position of a body\<close>

text \<open>
  The steps of \<^verbatim>\<open>position_at_adalia_day\<close>, in the order of the source. Line 35 is the
  mean motion \<^verbatim>\<open>n = k / sqrt(pow(a, 3))\<close>, line 50 the true anomaly
  \<^verbatim>\<open>v = 2 * atan(sqrt((1 + e) / (1 - e)) * tan(E / 2))\<close>, line 51 the radius
  \<^verbatim>\<open>r = a * (1 - pow(e, 2)) / (1 + e * cos(v))\<close>, lines 54 to 57 the coordinates.
  The parameter \<^verbatim>\<open>o\<close> of the source is written \<open>o'\<close>.
\<close>

definition mean_motion :: "real \<Rightarrow> error + real" where
  "mean_motion a =
     (let k = 0.01720209895
      in case math_sqrt (a ^ 3) of Inl err \<Rightarrow> Inl err | Inr s \<Rightarrow> float_div k s)"

definition true_anomaly :: "real \<Rightarrow> real \<Rightarrow> error + real" where
  "true_anomaly e E =
     (case float_div (1 + e) (1 - e) of
        Inl err \<Rightarrow> Inl err
      | Inr q \<Rightarrow> (case math_sqrt q of
                    Inl err \<Rightarrow> Inl err
                  | Inr s \<Rightarrow> Inr (2 * arctan (s * tan (E / 2)))))"

definition radius :: "real \<Rightarrow> real \<Rightarrow> real \<Rightarrow> error + real" where
  "radius a e v = float_div (a * (1 - e ^ 2)) (1 + e * cos v)"

definition cartesian :: "real \<Rightarrow> real \<Rightarrow> real \<Rightarrow> real \<Rightarrow> real \<Rightarrow> real list" where
  "cartesian r i o' p v =
     (let x = r * (cos o' * cos (v + p - o') - (sin o' * sin (v + p - o') * cos i));
          y = r * (sin o' * cos (v + p - o') + cos o' * sin (v + p - o') * cos i);
          z = r * sin (v + p - o') * sin i
      in [x * AU_MULTIPLIER, y * AU_MULTIPLIER, z * AU_MULTIPLIER])"

definition position_at_adalia_day ::
  "real \<Rightarrow> real \<Rightarrow> real \<Rightarrow> real \<Rightarrow> real \<Rightarrow> real \<Rightarrow> real \<Rightarrow> (error + real list) option" where
  "position_at_adalia_day a e i o' w m aday =
     (let p = w + o'
      in case mean_motion a of
           Inl err \<Rightarrow> Some (Inl err)
         | Inr n \<Rightarrow>
             (let M = m + (n * aday)
              in case kepler_solver M e of
                   None \<Rightarrow> None
                 | Some E \<Rightarrow>
                     (case true_anomaly e E of
                        Inl err \<Rightarrow> Some (Inl err)
                      | Inr v \<Rightarrow>
                          (case radius a e v of
                             Inl err \<Rightarrow> Some (Inl err)
                           | Inr r \<Rightarrow> Some (Inr (cartesian r i o' p v))))))"

section \<open>Orbital period\<close>

definition calculate_orbital_period :: "real \<Rightarrow> error + int" where
  "calculate_orbital_period a =
     (let third_law = 0.000007495
      in case math_sqrt (a ^ 3 / third_law) of
           Inl err \<Rightarrow> Inl err
         | Inr s \<Rightarrow> Inr (py_int s))"

section \<open>Adalia day\<close>

text \<open>
  \<^verbatim>\<open>pendulum.now()\<close> is the one reading of the clock; it is the parameter \<open>now\<close>, an
  instant in seconds. The difference of two instants has \<^verbatim>\<open>total_seconds()\<close> equal to
  the difference of their seconds.
\<close>

definition get_current_adalia_day :: "bool \<Rightarrow> real \<Rightarrow> real" where
  "get_current_adalia_day display_day now =
     (let timestamp = (if display_day then START_ARRIVAL_TIMESTAMP else START_ORBIT_TIMESTAMP);
          start_time = pendulum_parse timestamp;
          current_time = now;
          adalia_days = (current_time - start_time) / 60 / 60
      in adalia_days)"

section \<open>Loading the asteroids\<close>

text \<open>
  A line of the source file is a JSON object with the keys \<^verbatim>\<open>i\<close>, \<^verbatim>\<open>r\<close>,
  \<^verbatim>\<open>baseName\<close> and \<^verbatim>\<open>orbital\<close>, and possibly \<^verbatim>\<open>customName\<close>; the value of
  \<^verbatim>\<open>orbital\<close> holds the six elements \<^verbatim>\<open>a\<close>, \<^verbatim>\<open>e\<close>, \<^verbatim>\<open>i\<close>, \<^verbatim>\<open>o\<close>,
  \<^verbatim>\<open>w\<close>, \<^verbatim>\<open>m\<close>. The data frame is the record of its columns, each a list with one
  entry per line, in the order of the file; its index is not modelled.
\<close>

record orbital =
  orb_a :: real
  orb_e :: real
  orb_i :: real
  orb_o :: real
  orb_w :: real
  orb_m :: real

record asteroid_json =
  json_i :: int
  json_r :: int
  json_baseName :: string
  json_orbital :: orbital
  json_customName :: "string option"

record dataframe =
  col_i :: "32 word list"
  col_r :: "32 word list"
  col_baseName :: "string list"
  col_orbital :: "orbital list"
  col_customName :: "string list"
  col_orbital_T :: "16 word list"

record positioned_dataframe = dataframe +
  col_pos :: "real list list"

text \<open>
  \<^verbatim>\<open>astype\<close> to a narrower integer type keeps the low bits of each value: the column of
  Python integers is a column of 64-bit integers, and the conversion to \<^verbatim>\<open>int16\<close> or
  \<^verbatim>\<open>int32\<close> is the unchecked one of C.
\<close>

definition astype_int16 :: "int \<Rightarrow> 16 word" where
  "astype_int16 n = word_of_int n"

definition astype_int32 :: "int \<Rightarrow> 32 word" where
  "astype_int32 n = word_of_int n"

text \<open>
  The list comprehension of line 126,
  \<^verbatim>\<open>[calculate_orbital_period(x['a']) for x in asteroids_df['orbital']]\<close>:
  the first exception ends it.
\<close>

primrec orbital_periods :: "orbital list \<Rightarrow> error + int list" where
  "orbital_periods [] = Inr []"
| "orbital_periods (x # xs) =
     (case calculate_orbital_period (orb_a x) of
        Inl err \<Rightarrow> Inl err
      | Inr T \<Rightarrow> (case orbital_periods xs of
                    Inl err \<Rightarrow> Inl err
                  | Inr Ts \<Rightarrow> Inr (T # Ts)))"

text \<open>The list comprehension of \<^verbatim>\<open>apply_position_to_df\<close>, lines 98 to 104.\<close>

primrec positions :: "real \<Rightarrow> orbital list \<Rightarrow> (error + real list list) option" where
  "positions curr_aday [] = Some (Inr [])"
| "positions curr_aday (x # xs) =
     (case position_at_adalia_day (orb_a x) (orb_e x) (orb_i x) (orb_o x) (orb_w x) (orb_m x)
             curr_aday of
        None \<Rightarrow> None
      | Some (Inl err) \<Rightarrow> Some (Inl err)
      | Some (Inr pos) \<Rightarrow>
          (case positions curr_aday xs of
             None \<Rightarrow> None
           | Some (Inl err) \<Rightarrow> Some (Inl err)
           | Some (Inr ps) \<Rightarrow> Some (Inr (pos # ps))))"

definition apply_position_to_df ::
  "dataframe \<Rightarrow> real \<Rightarrow> (error + positioned_dataframe) option" where
  "apply_position_to_df df now =
     (let curr_aday = get_current_adalia_day False now
      in case positions curr_aday (col_orbital df) of
           None \<Rightarrow> None
         | Some (Inl err) \<Rightarrow> Some (Inl err)
         | Some (Inr ps) \<Rightarrow> Some (Inr (dataframe.extend df \<lparr>col_pos = ps\<rparr>)))"

text \<open>
  \<^verbatim>\<open>load_asteroids\<close> on the lines of the file. A file without lines gives a data frame
  without columns, and line 126 raises \<^verbatim>\<open>KeyError\<close> on \<^verbatim>\<open>asteroids_df['orbital']\<close>.
\<close>

definition load_asteroids ::
  "asteroid_json list \<Rightarrow> real \<Rightarrow> (error + positioned_dataframe) option" where
  "load_asteroids json_file now =
     (if json_file = [] then Some (Inl KeyError)
      else case orbital_periods (map json_orbital json_file) of
             Inl err \<Rightarrow> Some (Inl err)
           | Inr Ts \<Rightarrow>
               (let asteroids_df =
                      \<lparr>col_i = map (\<lambda>l. astype_int32 (json_i l)) json_file,
                       col_r = map (\<lambda>l. astype_int32 (json_r l)) json_file,
                       col_baseName = map json_baseName json_file,
                       col_orbital = map json_orbital json_file,
                       col_customName =
                         map (\<lambda>l. case json_customName l of None \<Rightarrow> [] | Some c \<Rightarrow> c)
                           json_file,
                       col_orbital_T = map astype_int16 Ts\<rparr>
                in apply_position_to_df asteroids_df now))"

text \<open>
  A file of one line, used to run the loader: a body on a circular orbit of 100 AU in the
  reference plane, without a custom name.
\<close>

definition example_body :: asteroid_json where
  "example_body = \<lparr>json_i = 1, json_r = 375142, json_baseName = ''Adalia Prime'',
     json_orbital = \<lparr>orb_a = 100, orb_e = 0, orb_i = 0, orb_o = 0, orb_w = 0, orb_m = 0\<rparr>,
     json_customName = None\<rparr>"

section \<open>Double precision\<close>

text \<open>
  A finite double is a real number of the form \<open>n * 2^k\<close> with \<open>|n| < 2^53\<close> and
  \<open>-1074 \<le> k\<close>. IEEE 754 fixes the result of \<^verbatim>\<open>+\<close>, \<^verbatim>\<open>-\<close>, \<^verbatim>\<open>*\<close>, \<^verbatim>\<open>/\<close> and
  \<^verbatim>\<open>sqrt\<close>: the exact result rounded to the nearest double, a tie going to the even
  \<open>n\<close>. \<open>round_double\<close> is that rounding; \<open>ulp_exponent x\<close> is the \<open>k\<close> of the doubles
  next to \<open>x\<close>, which is constant below \<open>2^-1022\<close>. A rounded value of magnitude
  \<open>2^1024\<close> or more is no double: it stands for an infinite result. A float literal of
  the source is the rounding of its decimal value.
\<close>

definition round_half_even :: "real \<Rightarrow> int" where
  "round_half_even y =
     (let f = \<lfloor>y\<rfloor>; r = y - of_int f
      in if r < 1 / 2 then f else if 1 / 2 < r then f + 1 else if even f then f else f + 1)"

definition ulp_exponent :: "real \<Rightarrow> int" where
  "ulp_exponent x = max \<lfloor>log 2 \<bar>x\<bar>\<rfloor> (- 1022) - 52"

definition round_double :: "real \<Rightarrow> real" where
  "round_double x =
     (if x = 0 then 0
      else of_int (round_half_even (x / 2 powi ulp_exponent x)) * 2 powi ulp_exponent x)"

text \<open>
  The functions of the C library behind \<^verbatim>\<open>math.sin\<close> and \<^verbatim>\<open>math.pow\<close> are not fixed
  by the standard: their results are close to the exact ones, not always the nearest
  double. They are parameters of the model: \<open>fsin\<close> is \<^verbatim>\<open>math.sin\<close>, and \<open>cube a\<close> is the
  value of \<^verbatim>\<open>math.pow(a, 3)\<close>, of magnitude \<open>2^1024\<close> or more where \<^verbatim>\<open>math.pow\<close> raises
  \<^verbatim>\<open>OverflowError\<close>.

  The loop of lines 41 to 47 on doubles: \<^verbatim>\<open>e * sin(E)\<close>, the sum with \<^verbatim>\<open>M\<close> and the
  difference \<^verbatim>\<open>E1 - E\<close> are rounded each.
\<close>

partial_function (option) kepler_loop_double ::
  "(real \<Rightarrow> real) \<Rightarrow> real \<Rightarrow> real \<Rightarrow> real \<Rightarrow> real \<Rightarrow> real option" where
  "kepler_loop_double fsin M e E last_diff =
     (if last_diff > round_double 0.0000001
      then (let E1 = round_double (M + round_double (e * fsin E))
            in kepler_loop_double fsin M e E1 \<bar>round_double (E1 - E)\<bar>)
      else Some E)"

definition kepler_solver_double :: "(real \<Rightarrow> real) \<Rightarrow> real \<Rightarrow> real \<Rightarrow> real option" where
  "kepler_solver_double fsin M e = kepler_loop_double fsin M e M 1"


text \<open>
  \<^verbatim>\<open>get_current_adalia_day\<close> on doubles. An instant is a number of microseconds since
  1970-01-01T00:00:00 UTC, the resolution of \<^verbatim>\<open>pendulum.now()\<close>; the difference of two
  instants is exact, and \<^verbatim>\<open>total_seconds()\<close> is its quotient by \<open>10^6\<close>, rounded.
\<close>

definition pendulum_parse_us :: "datetime \<Rightarrow> int" where
  "pendulum_parse_us t =
     ((ordinal (dt_year t) (dt_month t) (dt_day t) - ordinal 1970 1 1) * 86400
        + dt_hour t * 3600 + dt_minute t * 60 + dt_second t) * 1000000"

definition total_seconds :: "int \<Rightarrow> real" where
  "total_seconds us = round_double (of_int us / 10 ^ 6)"

definition get_current_adalia_day_double :: "bool \<Rightarrow> int \<Rightarrow> real" where
  "get_current_adalia_day_double display_day now =
     (let timestamp = (if display_day then START_ARRIVAL_TIMESTAMP else START_ORBIT_TIMESTAMP);
          start_time = pendulum_parse_us timestamp;
          current_time = now;
          adalia_days =
            round_double (round_double (total_seconds (current_time - start_time) / 60) / 60)
      in adalia_days)"

text \<open>
  The values of \<^verbatim>\<open>math.sin\<close> at the doubles \<open>3.1416\<close> and \<open>3.141592653589793\<close>, as a
  table: \<open>-7.346410206643587e-06\<close> and \<open>1.2246467991473532e-16\<close>.
\<close>

definition sin_table :: "real \<Rightarrow> real" where
  "sin_table x = (if x = 7074254294673575 / 2 ^ 51 then - 8673110332316285 / 2 ^ 70
                  else 4967757600021511 / 2 ^ 105)"

section \<open>Convergence of the solver loop in exact arithmetic\<close>


lemma abs_sin_half_abs: "\<bar>sin (\<bar>x\<bar> / 2)\<bar> = \<bar>sin (x / 2)\<bar>" for x :: real
proof (cases "0 \<le> x")
  case True
  then show ?thesis by simp
next
  case False
  have "sin (- x / 2) = - sin (x / 2)"
    using sin_minus [of "x / 2"] by simp
  with False show ?thesis by simp
qed

lemma sin_half_shrinks:
  fixes t d :: real
  assumes "t \<le> d" "d \<le> 1" "0 < t"
  shows "2 * \<bar>sin (d / 2)\<bar> \<le> cos (t / 4) * d"
proof -
  have pi: "1 \<le> pi" using pi_ge_two by linarith
  have s0: "0 \<le> sin (d / 4)"
    using assms pi by (intro sin_ge_zero) simp_all
  have s1: "sin (d / 4) \<le> d / 4"
    using assms by (intro sin_x_le_x) simp
  have c0: "0 \<le> cos (d / 4)"
    using assms pi_ge_two by (intro cos_ge_zero) simp_all
  have c1: "cos (d / 4) \<le> cos (t / 4)"
    using assms pi by (intro cos_monotone_0_pi_le) simp_all
  have "sin (d / 2) = 2 * sin (d / 4) * cos (d / 4)"
    using sin_double [of "d / 4"] by simp
  then have "2 * \<bar>sin (d / 2)\<bar> = 4 * (sin (d / 4) * cos (d / 4))"
    using s0 c0 by (simp add: abs_mult)
  also have "\<dots> \<le> 4 * (d / 4 * cos (t / 4))"
    using s0 s1 c0 c1 by (intro mult_left_mono mult_mono) simp_all
  finally show ?thesis by (simp add: mult.commute)
qed

lemma kepler_diff_step:
  assumes "\<bar>e\<bar> \<le> 1"
  shows "kepler_diff M e (Suc (Suc n)) \<le> 2 * \<bar>sin (kepler_diff M e (Suc n) / 2)\<bar>"
proof -
  let ?x = "kepler_iterate M e (Suc n)" and ?y = "kepler_iterate M e n"
  have "kepler_diff M e (Suc (Suc n)) = \<bar>e\<bar> * \<bar>sin ?x - sin ?y\<bar>"
    by (simp add: abs_mult [symmetric] right_diff_distrib)
  also have "\<dots> \<le> 1 * \<bar>sin ?x - sin ?y\<bar>"
    using assms by (intro mult_right_mono) simp_all
  also have "\<bar>sin ?x - sin ?y\<bar> = 2 * \<bar>sin ((?x - ?y) / 2)\<bar> * \<bar>cos ((?x + ?y) / 2)\<bar>"
    by (simp add: sin_diff_sin abs_mult)
  also have "\<dots> \<le> 2 * \<bar>sin ((?x - ?y) / 2)\<bar> * 1"
    by (intro mult_left_mono) simp_all
  also have "\<bar>sin ((?x - ?y) / 2)\<bar> = \<bar>sin (\<bar>?x - ?y\<bar> / 2)\<bar>"
    by (rule abs_sin_half_abs [symmetric])
  finally show ?thesis by simp
qed

lemma kepler_diff_small_unit:
  assumes "\<bar>e\<bar> \<le> 1"
  shows "\<exists>n. kepler_diff M e (Suc n) \<le> 0.0000001"
proof (rule ccontr)
  assume "\<not> ?thesis"
  then have large: "kepler_diff M e (Suc n) > 0.0000001" for n
    by (simp add: not_le)
  define c where "c = cos (0.0000001 / 4 :: real)"
  have pi: "1 \<le> pi" using pi_ge_two by linarith
  have "cos (0.0000001 / 4 :: real) < cos 0"
    using pi by (intro cos_monotone_0_pi) simp_all
  then have c1: "c < 1" by (simp add: c_def)
  have c0: "0 \<le> c"
    unfolding c_def using pi_ge_two by (intro cos_ge_zero) simp_all
  have bound: "kepler_diff M e (Suc n) \<le> c ^ n" for n
  proof (induction n)
    case 0
    have "\<bar>e * sin M\<bar> \<le> 1 * 1"
      unfolding abs_mult using assms by (intro mult_mono) simp_all
    then show ?case by simp
  next
    case (Suc n)
    have le1: "kepler_diff M e (Suc n) \<le> 1"
      using Suc.IH power_le_one [OF c0 less_imp_le [OF c1], of n] by linarith
    have "kepler_diff M e (Suc (Suc n)) \<le> 2 * \<bar>sin (kepler_diff M e (Suc n) / 2)\<bar>"
      by (rule kepler_diff_step [OF assms])
    also have "\<dots> \<le> cos (0.0000001 / 4) * kepler_diff M e (Suc n)"
      using large [of n] le1 by (intro sin_half_shrinks) simp_all
    also have "\<dots> \<le> c * c ^ n"
      unfolding c_def [symmetric] using Suc.IH c0 by (intro mult_left_mono)
    finally show ?case by simp
  qed
  obtain n where "c ^ n < 0.0000001"
    using real_arch_pow_inv [of "0.0000001" c] c1 by auto
  with bound [of n] large [of n] show False by linarith
qed

lemma kepler_loop_unroll:
  "(\<forall>k<n. kepler_diff M e k > 0.0000001) \<Longrightarrow>
   kepler_loop M e M 1 = kepler_loop M e (kepler_iterate M e n) (kepler_diff M e n)"
proof (induction n)
  case 0
  show ?case by simp
next
  case (Suc n)
  then have "kepler_loop M e M 1 = kepler_loop M e (kepler_iterate M e n) (kepler_diff M e n)"
    by simp
  moreover have "kepler_diff M e n > 0.0000001" using Suc.prems by simp
  ultimately show ?case
    by (subst (asm) (2) kepler_loop.simps) (simp add: Let_def)
qed

lemma kepler_solver_converges:
  assumes "\<bar>e\<bar> \<le> 1"
  shows "\<exists>n. kepler_solver M e = Some (kepler_iterate M e (Suc n))
             \<and> kepler_diff M e (Suc n) \<le> 0.0000001
             \<and> (\<forall>k\<le>n. kepler_diff M e k > 0.0000001)"
proof -
  define P where "P n \<longleftrightarrow> kepler_diff M e n \<le> 0.0000001" for n
  define N where "N = (LEAST n. P n)"
  from kepler_diff_small_unit [OF assms, of M] obtain n0 where "P (Suc n0)"
    by (auto simp: P_def)
  then have PN: "P N" unfolding N_def by (rule LeastI)
  have least: "\<not> P k" if "k < N" for k
    using that not_less_Least unfolding N_def by blast
  have "\<not> P 0" by (simp add: P_def)
  with PN obtain n where N: "N = Suc n" by (cases N) auto
  have before: "\<forall>k<Suc n. kepler_diff M e k > 0.0000001"
    using least N by (auto simp: P_def not_le)
  have "kepler_loop M e M 1
        = kepler_loop M e (kepler_iterate M e (Suc n)) (kepler_diff M e (Suc n))"
    by (rule kepler_loop_unroll [OF before])
  also have "\<dots> = Some (kepler_iterate M e (Suc n))"
    using PN N by (subst kepler_loop.simps) (simp add: P_def)
  finally have "kepler_solver M e = Some (kepler_iterate M e (Suc n))"
    by (simp add: kepler_solver_def)
  moreover have "kepler_diff M e (Suc n) \<le> 0.0000001"
    using PN N by (simp add: P_def)
  moreover have "\<forall>k\<le>n. kepler_diff M e k > 0.0000001"
    using before by (simp add: less_Suc_eq_le)
  ultimately show ?thesis by blast
qed

lemma kepler_solver_fixed: "e * sin M = 0 \<Longrightarrow> kepler_solver M e = Some M"
proof -
  assume fixed: "e * sin M = 0"
  have "kepler_loop M e M 1 = kepler_loop M e (M + e * sin M) \<bar>M + e * sin M - M\<bar>"
    by (subst kepler_loop.simps) (simp add: Let_def)
  also have "\<dots> = kepler_loop M e M 0"
    by (simp only: fixed) simp
  also have "\<dots> = Some M"
    by (subst kepler_loop.simps) simp
  finally show ?thesis by (simp add: kepler_solver_def)
qed

section \<open>The steps of the position on an elliptic orbit\<close>

lemma mean_motion_pos: "0 < a \<Longrightarrow> mean_motion a = Inr (0.01720209895 / sqrt (a ^ 3))"
  by (simp add: mean_motion_def math_sqrt_def float_div_def)

lemma true_anomaly_elliptic:
  assumes "\<bar>e\<bar> < 1"
  shows "true_anomaly e E = Inr (2 * arctan (sqrt ((1 + e) / (1 - e)) * tan (E / 2)))"
proof -
  from assms have "1 - e \<noteq> 0" and "\<not> (1 + e) / (1 - e) < 0"
    by (simp_all add: not_less)
  then show ?thesis
    by (simp add: true_anomaly_def math_sqrt_def float_div_def)
qed

lemma radius_elliptic:
  assumes "\<bar>e\<bar> < 1"
  shows "radius a e v = Inr (a * (1 - e ^ 2) / (1 + e * cos v))"
proof -
  have "\<bar>e * cos v\<bar> \<le> \<bar>e\<bar> * 1"
    unfolding abs_mult by (intro mult_left_mono) simp_all
  with assms have "1 + e * cos v \<noteq> 0" by linarith
  then show ?thesis by (simp add: radius_def float_div_def)
qed

lemma position_elliptic:
  assumes "0 < a" "\<bar>e\<bar> < 1"
  shows "\<exists>v r. position_at_adalia_day a e i o' w m aday = Some (Inr (cartesian r i o' (w + o') v))"
proof -
  obtain n where "kepler_solver (m + 0.01720209895 / sqrt (a ^ 3) * aday) e
      = Some (kepler_iterate (m + 0.01720209895 / sqrt (a ^ 3) * aday) e (Suc n))"
    using kepler_solver_converges [of e] assms(2) by fastforce
  then have "\<exists>E. kepler_solver (m + 0.01720209895 / sqrt (a ^ 3) * aday) e = Some E"
    by blast
  then obtain E where E: "kepler_solver (m + 0.01720209895 / sqrt (a ^ 3) * aday) e = Some E" ..
  define v where "v = 2 * arctan (sqrt ((1 + e) / (1 - e)) * tan (E / 2))"
  define r where "r = a * (1 - e ^ 2) / (1 + e * cos v)"
  have "position_at_adalia_day a e i o' w m aday = Some (Inr (cartesian r i o' (w + o') v))"
    unfolding position_at_adalia_day_def Let_def
    by (simp only: mean_motion_pos [OF assms(1)] E true_anomaly_elliptic [OF assms(2)]
        radius_elliptic [OF assms(2)] v_def r_def sum.case option.case)
  then show ?thesis by blast
qed


lemma arctan_tan_mod_pi:
  assumes "cos x \<noteq> 0"
  shows "\<exists>k::int. arctan (tan x) = x + pi * of_int k"
proof -
  obtain k :: int where "arctan (tan x) = x - of_int k * pi"
    using arctan_tan_eq_abs_pi [OF assms] by blast
  then have "arctan (tan x) = x + pi * of_int (- k)" by simp
  then show ?thesis by blast
qed

lemma mean_motion_nonpos: "a \<le> 0 \<Longrightarrow> \<exists>err. mean_motion a = Inl err"
  by (cases "a = 0") (simp_all add: mean_motion_def math_sqrt_def float_div_def power_less_zero_eq)

lemma true_anomaly_parabolic: "true_anomaly 1 E = Inl ZeroDivisionError"
  by (simp add: true_anomaly_def float_div_def)

lemma position_parabolic:
  assumes "0 < a"
  shows "position_at_adalia_day a 1 i o' w m aday = Some (Inl ZeroDivisionError)"
proof -
  obtain n where "kepler_solver (m + 0.01720209895 / sqrt (a ^ 3) * aday) 1
      = Some (kepler_iterate (m + 0.01720209895 / sqrt (a ^ 3) * aday) 1 (Suc n))"
    using kepler_solver_converges [of 1] by fastforce
  then show ?thesis
    unfolding position_at_adalia_day_def Let_def
    by (simp only: mean_motion_pos [OF assms] true_anomaly_parabolic sum.case option.case)
qed

section \<open>Values of the period, the epochs and the loader\<close>

lemma floor_sqrt_eq:
  assumes "0 \<le> n" "(of_int n)\<^sup>2 \<le> x" "x < (of_int n + 1)\<^sup>2"
  shows "\<lfloor>sqrt x\<rfloor> = n"
proof (rule floor_unique)
  show "of_int n \<le> sqrt x"
    using assms(2) by (rule real_le_rsqrt)
  show "sqrt x < of_int n + 1"
    using assms(1,3) by (intro real_less_lsqrt) simp_all
qed

lemma calculate_orbital_period_nonneg:
  assumes "0 \<le> a"
  shows "calculate_orbital_period a = Inr \<lfloor>sqrt (a ^ 3 / 0.000007495)\<rfloor>"
proof -
  from assms have "0 \<le> a ^ 3" by simp
  then have "\<not> a ^ 3 / 0.000007495 < 0" by (simp add: not_less)
  moreover have "0 \<le> sqrt (a ^ 3 / 0.000007495)"
    using \<open>0 \<le> a ^ 3\<close> by simp
  ultimately show ?thesis
    by (simp add: calculate_orbital_period_def math_sqrt_def py_int_def)
qed

lemma calculate_orbital_period_neg:
  assumes "a < 0"
  shows "calculate_orbital_period a = Inl ValueError"
proof -
  from assms have "a ^ 3 < 0" by (simp add: power_less_zero_eq)
  then have "a ^ 3 / 0.000007495 < 0" by (simp add: divide_neg_pos)
  then show ?thesis
    by (simp add: calculate_orbital_period_def math_sqrt_def)
qed

lemma period_1: "calculate_orbital_period 1 = Inr 365"
  using floor_sqrt_eq [of 365 "1 ^ 3 / 0.000007495"]
  by (simp add: calculate_orbital_period_nonneg)

lemma period_1001: "calculate_orbital_period 1.001 = Inr 365"
  using floor_sqrt_eq [of 365 "1.001 ^ 3 / 0.000007495"]
  by (simp add: calculate_orbital_period_nonneg power3_eq_cube)

lemma period_100: "calculate_orbital_period 100 = Inr 365270"
  using floor_sqrt_eq [of 365270 "100 ^ 3 / 0.000007495"]
  by (simp add: calculate_orbital_period_nonneg)

lemma epoch_orbit: "pendulum_parse START_ORBIT_TIMESTAMP = 1609459200"
  by (simp add: pendulum_parse_def START_ORBIT_TIMESTAMP_def ordinal_def days_before_year_def
      days_before_month_def days_in_month_def is_leap_def upt_conv_Cons)

lemma epoch_arrival: "pendulum_parse START_ARRIVAL_TIMESTAMP = 1618668000"
  by (simp add: pendulum_parse_def START_ARRIVAL_TIMESTAMP_def ordinal_def days_before_year_def
      days_before_month_def days_in_month_def is_leap_def upt_conv_Cons)

lemma orbital_periods_nth:
  "orbital_periods xs = Inr Ts \<Longrightarrow>
   length Ts = length xs
   \<and> (\<forall>k<length xs. calculate_orbital_period (orb_a (xs ! k)) = Inr (Ts ! k))"
proof (induction xs arbitrary: Ts)
  case Nil
  then show ?case by simp
next
  case (Cons x xs)
  from Cons.prems obtain T Ts' where
    T: "calculate_orbital_period (orb_a x) = Inr T"
    and Ts': "orbital_periods xs = Inr Ts'" and Ts: "Ts = T # Ts'"
    by (auto split: sum.splits)
  from Cons.IH [OF Ts'] have len: "length Ts' = length xs"
    and nth: "\<forall>k<length xs. calculate_orbital_period (orb_a (xs ! k)) = Inr (Ts' ! k)"
    by simp_all
  show ?case
  proof (intro conjI allI impI)
    show "length Ts = length (x # xs)" using len Ts by simp
    fix k assume "k < length (x # xs)"
    then show "calculate_orbital_period (orb_a ((x # xs) ! k)) = Inr (Ts ! k)"
      using T nth Ts by (cases k) simp_all
  qed
qed

lemma load_asteroids_periods:
  assumes "load_asteroids json_file now = Some (Inr df)"
  shows "\<exists>Ts. orbital_periods (map json_orbital json_file) = Inr Ts
             \<and> col_orbital_T df = map astype_int16 Ts"
  using assms
  by (auto simp: load_asteroids_def apply_position_to_df_def Let_def dataframe.defs
      split: if_splits sum.splits option.splits)

lemma astype_int16_wraps:
  "sint (astype_int16 T) = (T + 32768) mod 65536 - 32768"
  by (simp add: astype_int16_def int_word_sint)

lemma position_example_far:
  "position_at_adalia_day 100 0 0 0 0 0 0 = Some (Inr [14959.7871, 0, 0])"
proof -
  have "kepler_solver 0 0 = Some 0"
    by (rule kepler_solver_fixed) simp
  moreover have "true_anomaly 0 0 = Inr 0"
    using true_anomaly_elliptic [of 0 0] by simp
  moreover have "radius 100 0 0 = Inr 100"
    using radius_elliptic [of 0 100 0] by simp
  ultimately show ?thesis
    by (simp add: position_at_adalia_day_def mean_motion_pos cartesian_def AU_MULTIPLIER_def)
qed

lemma load_example:
  "load_asteroids [example_body] 1609459200 =
     Some (Inr \<lparr>col_i = [1], col_r = [375142], col_baseName = [''Adalia Prime''],
       col_orbital = [\<lparr>orb_a = 100, orb_e = 0, orb_i = 0, orb_o = 0, orb_w = 0, orb_m = 0\<rparr>],
       col_customName = [[]], col_orbital_T = [- 27946], col_pos = [[14959.7871, 0, 0]]\<rparr>)"
proof -
  have "get_current_adalia_day False 1609459200 = 0"
    by (simp add: get_current_adalia_day_def epoch_orbit)
  then show ?thesis
    by (simp add: load_asteroids_def apply_position_to_df_def example_body_def period_100
        position_example_far astype_int16_def astype_int32_def dataframe.defs)
qed

section \<open>Rounding to the nearest double\<close>

lemma round_half_even_error: "\<bar>of_int (round_half_even y) - y\<bar> \<le> 1 / 2"
proof -
  have "of_int \<lfloor>y\<rfloor> \<le> y" and "y < of_int \<lfloor>y\<rfloor> + 1"
    by linarith+
  then show ?thesis
    by (auto simp: round_half_even_def Let_def)
qed

lemma round_half_even_eqI:
  assumes "of_int n - 1 / 2 < y" "y < of_int n + 1 / 2"
  shows "round_half_even y = n"
proof -
  have "\<bar>of_int (round_half_even y) - y\<bar> \<le> 1 / 2"
    by (rule round_half_even_error)
  with assms have "\<bar>real_of_int (round_half_even y) - of_int n\<bar> < 1"
    by linarith
  then have "\<bar>round_half_even y - n\<bar> < 1"
    by (metis of_int_diff of_int_abs of_int_less_1_iff)
  then show ?thesis by linarith
qed

lemma two_powi_powr: "(2::real) powi k = 2 powr of_int k"
  by (simp add: powr_real_of_int power_int_def inverse_eq_divide power_one_over)

lemma two_powi_less_imp:
  assumes "2 powi m < (2::real) powi n"
  shows "m < n"
proof (rule ccontr)
  assume "\<not> m < n"
  then have "(2::real) powi n \<le> 2 powi m"
    by (intro power_int_increasing) simp_all
  with assms show False by linarith
qed

lemma floor_log2_eqI:
  assumes "2 powi k \<le> x" "x < 2 powi (k + 1)"
  shows "\<lfloor>log 2 x\<rfloor> = k"
proof -
  have "0 < (2::real) powi k" by simp
  with assms have "0 < x" by linarith
  then show ?thesis
    using assms by (simp add: floor_log_eq_powr_iff two_powi_powr)
qed

lemma floor_log2_bounds:
  assumes "0 < x"
  shows "2 powi \<lfloor>log 2 x\<rfloor> \<le> x" and "x < 2 powi (\<lfloor>log 2 x\<rfloor> + 1)"
  using floor_log_eq_powr_iff [of x 2 "\<lfloor>log 2 x\<rfloor>"] assms
  by (simp_all add: two_powi_powr)

lemma round_double_eqI:
  assumes "2 powi k \<le> \<bar>x\<bar>" "\<bar>x\<bar> < 2 powi (k + 1)" "- 1022 \<le> k"
    and "round_half_even (x / 2 powi (k - 52)) = n"
  shows "round_double x = of_int n * 2 powi (k - 52)"
proof -
  have "0 < (2::real) powi k" by simp
  with assms(1) have "0 < \<bar>x\<bar>" by linarith
  then have "x \<noteq> 0" by simp
  moreover have "\<lfloor>log 2 \<bar>x\<bar>\<rfloor> = k"
    using assms(1,2) by (rule floor_log2_eqI)
  then have "ulp_exponent x = k - 52"
    using assms(3) by (simp add: ulp_exponent_def)
  ultimately show ?thesis
    using assms(4) by (simp add: round_double_def)
qed

lemma round_double_error_ulp:
  "\<bar>round_double x - x\<bar> \<le> 2 powi ulp_exponent x / 2"
proof (cases "x = 0")
  case True
  then show ?thesis by (simp add: round_double_def)
next
  case False
  let ?e = "ulp_exponent x"
  let ?n = "round_half_even (x / 2 powi ?e)"
  have pos: "0 < (2::real) powi ?e" by simp
  have "round_double x - x = (of_int ?n - x / 2 powi ?e) * 2 powi ?e"
    using False pos by (simp add: round_double_def field_simps)
  then have "\<bar>round_double x - x\<bar> = \<bar>of_int ?n - x / 2 powi ?e\<bar> * 2 powi ?e"
    by (simp add: abs_mult)
  also have "\<dots> \<le> 1 / 2 * 2 powi ?e"
    using round_half_even_error [of "x / 2 powi ?e"] by (intro mult_right_mono) simp_all
  finally show ?thesis by simp
qed

lemma round_double_error_normal:
  assumes "2 powi (- 1022) \<le> \<bar>x\<bar>"
  shows "\<bar>round_double x - x\<bar> \<le> \<bar>x\<bar> / 2 ^ 53"
proof -
  have "0 < (2::real) powi (- 1022)" by simp
  with assms have pos: "0 < \<bar>x\<bar>" by linarith
  let ?k = "\<lfloor>log 2 \<bar>x\<bar>\<rfloor>"
  have lo: "2 powi ?k \<le> \<bar>x\<bar>" and hi: "\<bar>x\<bar> < 2 powi (?k + 1)"
    using floor_log2_bounds [OF pos] by simp_all
  have "2 powi (- 1022) < (2::real) powi (?k + 1)"
    using assms hi by linarith
  then have "- 1022 < ?k + 1"
    by (rule two_powi_less_imp)
  then have e: "ulp_exponent x = ?k - 52"
    by (simp add: ulp_exponent_def)
  have "\<bar>round_double x - x\<bar> \<le> 2 powi (?k - 52) / 2"
    using round_double_error_ulp [of x] by (simp add: e)
  also have "\<dots> = 2 powi ?k / 2 ^ 53"
    by (simp add: power_int_diff)
  also have "\<dots> \<le> \<bar>x\<bar> / 2 ^ 53"
    using lo by (simp add: divide_right_mono)
  finally show ?thesis .
qed


lemma round_double_rel:
  assumes "1 / 10 ^ 300 \<le> \<bar>x\<bar>"
  shows "\<bar>round_double x - x\<bar> \<le> \<bar>x\<bar> / 2 ^ 53"
proof -
  have "(2::real) powi (- 1022) \<le> 1 / 10 ^ 300"
    by (simp add: power_int_def field_simps)
  with assms have "2 powi (- 1022) \<le> \<bar>x\<bar>" by linarith
  then show ?thesis by (rule round_double_error_normal)
qed

lemma round_double_ge_half:
  assumes "1 / 10 ^ 300 \<le> \<bar>x\<bar>"
  shows "\<bar>x\<bar> / 2 \<le> \<bar>round_double x\<bar>"
proof -
  have "\<bar>x\<bar> / 2 ^ 53 \<le> \<bar>x\<bar> / 2"
    by (intro divide_left_mono) simp_all
  with round_double_rel [OF assms] show ?thesis by linarith
qed

lemma round_double_fraction:
  fixes j :: nat
  assumes "2 ^ 52 \<le> \<bar>x\<bar> * 2 ^ j" "\<bar>x\<bar> * 2 ^ j < 2 ^ 53"
    and "of_int n - 1 / 2 < x * 2 ^ j" "x * 2 ^ j < of_int n + 1 / 2"
    and "j \<le> 1074"
  shows "round_double x = of_int n / 2 ^ j"
proof -
  define k where "k = 52 - int j"
  have p: "(2::real) powi k = 2 ^ 52 / 2 ^ j"
    unfolding k_def using power_int_diff [of "2::real" 52 "int j"] by simp
  have q: "(2::real) powi (k + 1) = 2 ^ 53 / 2 ^ j"
  proof -
    have "k + 1 = 53 - int j" by (simp add: k_def)
    then show ?thesis
      using power_int_diff [of "2::real" 53 "int j"] by simp
  qed
  have r: "(2::real) powi (k - 52) = 1 / 2 ^ j"
  proof -
    have "k - 52 = 0 - int j" by (simp add: k_def)
    then show ?thesis
      using power_int_diff [of "2::real" 0 "int j"] by simp
  qed
  have "2 powi k \<le> \<bar>x\<bar>"
    unfolding p using assms(1) by (simp add: field_simps)
  moreover have "\<bar>x\<bar> < 2 powi (k + 1)"
    unfolding q using assms(2) by (simp add: field_simps)
  moreover have "- 1022 \<le> k"
    using assms(5) by (simp add: k_def)
  moreover have "round_half_even (x / 2 powi (k - 52)) = n"
    unfolding r using assms(3,4) by (intro round_half_even_eqI) simp_all
  ultimately have "round_double x = of_int n * 2 powi (k - 52)"
    by (rule round_double_eqI)
  then show ?thesis unfolding r by simp
qed


section \<open>The day count on doubles\<close>

lemma epoch_orbit_us: "pendulum_parse_us START_ORBIT_TIMESTAMP = 1609459200000000"
  by (simp add: pendulum_parse_us_def START_ORBIT_TIMESTAMP_def ordinal_def days_before_year_def
      days_before_month_def days_in_month_def is_leap_def upt_conv_Cons)

lemma epoch_arrival_us: "pendulum_parse_us START_ARRIVAL_TIMESTAMP = 1618668000000000"
  by (simp add: pendulum_parse_us_def START_ARRIVAL_TIMESTAMP_def ordinal_def days_before_year_def
      days_before_month_def days_in_month_def is_leap_def upt_conv_Cons)

lemma round_double_5: "round_double 5 = 5"
  using round_double_fraction [of 5 50 "5 * 2 ^ 50"] by simp

lemma round_double_twelfth: "round_double (5 / 60) = 6004799503160661 / 2 ^ 56"
  using round_double_fraction [of "5 / 60" 56 6004799503160661] by simp

lemma round_double_code_5:
  "round_double (6004799503160661 / 2 ^ 56 / 60) = 6405119470038038 / 2 ^ 62"
  using round_double_fraction [of "6004799503160661 / 2 ^ 56 / 60" 62 6405119470038038] by simp

lemma round_double_exact_5: "round_double (5 / 3600) = 6405119470038039 / 2 ^ 62"
  using round_double_fraction [of "5 / 3600" 62 6405119470038039] by simp

lemma three_roundings_arith:
  fixes A B C :: real
  assumes "0 \<le> A" "B \<le> A + A / 2 ^ 53"
    and "C \<le> A / 60 + (B / 60 / 2 ^ 53 + A / 2 ^ 53 / 60)"
  shows "C / 60 / 2 ^ 53 + (B / 60 / 2 ^ 53 + A / 2 ^ 53 / 60) / 60 \<le> A / 3600 / 2 ^ 51"
  using assms by (simp add: add_divide_distrib)

lemma two_divisions_close:
  assumes "1 / 10 ^ 6 \<le> \<bar>X\<bar>"
  shows "\<bar>round_double (round_double (round_double X / 60) / 60) - X / 3600\<bar>
         \<le> \<bar>X / 3600\<bar> / 2 ^ 51"
proof -
  define t where "t = round_double X"
  define d1 where "d1 = round_double (t / 60)"
  define d2 where "d2 = round_double (d1 / 60)"
  have X: "1 / 10 ^ 300 \<le> \<bar>X\<bar>"
    using assms by (rule order_trans [rotated]) simp
  have t1: "\<bar>t - X\<bar> \<le> \<bar>X\<bar> / 2 ^ 53"
    unfolding t_def by (rule round_double_rel [OF X])
  have t2: "\<bar>X\<bar> / 2 \<le> \<bar>t\<bar>"
    unfolding t_def by (rule round_double_ge_half [OF X])
  have t3: "\<bar>t\<bar> \<le> \<bar>X\<bar> + \<bar>X\<bar> / 2 ^ 53"
    using t1 by linarith
  have T: "1 / 10 ^ 300 \<le> \<bar>t / 60\<bar>"
    using t2 assms by (simp add: field_simps)
  have a1: "\<bar>d1 - t / 60\<bar> \<le> \<bar>t\<bar> / 60 / 2 ^ 53"
    unfolding d1_def using round_double_rel [OF T] by simp
  have a2: "\<bar>t\<bar> / 120 \<le> \<bar>d1\<bar>"
    unfolding d1_def using round_double_ge_half [OF T] by simp
  have D: "1 / 10 ^ 300 \<le> \<bar>d1 / 60\<bar>"
    using a2 t2 assms by (simp add: field_simps)
  have b1: "\<bar>d2 - d1 / 60\<bar> \<le> \<bar>d1\<bar> / 60 / 2 ^ 53"
    unfolding d2_def using round_double_rel [OF D] by simp
  have s1: "\<bar>d1 - X / 60\<bar> \<le> \<bar>d1 - t / 60\<bar> + \<bar>t - X\<bar> / 60"
  proof -
    have "\<bar>t / 60 - X / 60\<bar> = \<bar>t - X\<bar> / 60"
      using abs_divide [of "t - X" 60] by (simp add: diff_divide_distrib)
    then show ?thesis
      using abs_triangle_ineq [of "d1 - t / 60" "t / 60 - X / 60"] by simp
  qed
  have a3: "\<bar>d1 - X / 60\<bar> \<le> \<bar>t\<bar> / 60 / 2 ^ 53 + \<bar>X\<bar> / 2 ^ 53 / 60"
  proof -
    have "\<bar>t - X\<bar> / 60 \<le> \<bar>X\<bar> / 2 ^ 53 / 60"
      using t1 by (rule divide_right_mono) simp
    with s1 a1 show ?thesis by linarith
  qed
  have s2: "\<bar>d1\<bar> \<le> \<bar>X\<bar> / 60 + \<bar>d1 - X / 60\<bar>"
    using abs_triangle_ineq [of "X / 60" "d1 - X / 60"] by simp
  have a4: "\<bar>d1\<bar> \<le> \<bar>X\<bar> / 60 + (\<bar>t\<bar> / 60 / 2 ^ 53 + \<bar>X\<bar> / 2 ^ 53 / 60)"
    using s2 a3 by linarith
  have s3: "\<bar>d2 - X / 3600\<bar> \<le> \<bar>d2 - d1 / 60\<bar> + \<bar>d1 - X / 60\<bar> / 60"
  proof -
    have "\<bar>d1 / 60 - X / 3600\<bar> = \<bar>d1 - X / 60\<bar> / 60"
      using abs_divide [of "d1 - X / 60" 60] by (simp add: diff_divide_distrib)
    then show ?thesis
      using abs_triangle_ineq [of "d2 - d1 / 60" "d1 / 60 - X / 3600"] by simp
  qed
  have "\<bar>d1 - X / 60\<bar> / 60 \<le> (\<bar>t\<bar> / 60 / 2 ^ 53 + \<bar>X\<bar> / 2 ^ 53 / 60) / 60"
    using a3 by (rule divide_right_mono) simp
  with s3 b1
  have "\<bar>d2 - X / 3600\<bar>
        \<le> \<bar>d1\<bar> / 60 / 2 ^ 53 + (\<bar>t\<bar> / 60 / 2 ^ 53 + \<bar>X\<bar> / 2 ^ 53 / 60) / 60"
    by linarith
  also have "\<dots> \<le> \<bar>X\<bar> / 3600 / 2 ^ 51"
    by (rule three_roundings_arith [OF _ t3 a4]) simp
  finally show ?thesis
    by (simp add: d2_def d1_def t_def)
qed

section \<open>The period on doubles\<close>







section \<open>The solver loop on doubles\<close>

lemma tolerance_double: "round_double 0.0000001 = 7555786372591432 / 2 ^ 76"
  using round_double_fraction [of "0.0000001" 76 7555786372591432] by simp

lemma cycle_product_1:
  "round_double (9007199254740991 / 2 ^ 53 * (- 8673110332316285 / 2 ^ 70))
     = - 8673110332316284 / 2 ^ 70"
  using round_double_fraction
    [of "9007199254740991 / 2 ^ 53 * (- 8673110332316285 / 2 ^ 70)" 70 "- 8673110332316284"]
  by simp

lemma cycle_sum_1:
  "round_double (7074254294673575 / 2 ^ 51 + - 8673110332316284 / 2 ^ 70)
     = 7074237752028440 / 2 ^ 51"
  using round_double_fraction
    [of "7074254294673575 / 2 ^ 51 + - 8673110332316284 / 2 ^ 70" 51 7074237752028440]
  by simp

lemma cycle_diff_1:
  "round_double (7074237752028440 / 2 ^ 51 - 7074254294673575 / 2 ^ 51)
     = - 8673110332538880 / 2 ^ 70"
  using round_double_fraction
    [of "7074237752028440 / 2 ^ 51 - 7074254294673575 / 2 ^ 51" 70 "- 8673110332538880"]
  by simp

lemma cycle_product_2:
  "round_double (9007199254740991 / 2 ^ 53 * (4967757600021511 / 2 ^ 105))
     = 4967757600021510 / 2 ^ 105"
  using round_double_fraction
    [of "9007199254740991 / 2 ^ 53 * (4967757600021511 / 2 ^ 105)" 105 4967757600021510]
  by simp

lemma cycle_sum_2:
  "round_double (7074254294673575 / 2 ^ 51 + 4967757600021510 / 2 ^ 105)
     = 7074254294673575 / 2 ^ 51"
  using round_double_fraction
    [of "7074254294673575 / 2 ^ 51 + 4967757600021510 / 2 ^ 105" 51 7074254294673575]
  by simp

lemma cycle_diff_2:
  "round_double (7074254294673575 / 2 ^ 51 - 7074237752028440 / 2 ^ 51)
     = 8673110332538880 / 2 ^ 70"
  using round_double_fraction
    [of "7074254294673575 / 2 ^ 51 - 7074237752028440 / 2 ^ 51" 70 8673110332538880]
  by simp










section \<open>The claims\<close>

subsection \<open>The solver\<close>



text \<open>
  C3: the claim is that the loop ends for every \<open>0 \<le> e < 1\<close>. On doubles it does
  not: for \<open>e = 0.9999999999999999\<close> and \<open>M = 3.1416\<close> the value of \<^verbatim>\<open>E\<close> alternates
  between \<open>3.141592653589793\<close> and \<open>3.1416\<close>, and \<^verbatim>\<open>last_diff\<close> stays at
  \<open>7.346410206832132e-06\<close>, above the tolerance. The two hypotheses are the values of
  \<^verbatim>\<open>math.sin\<close> at these two doubles.
\<close>

theorem kepler_loop_double_cycles:
  assumes s0: "fsin (7074254294673575 / 2 ^ 51) = - 8673110332316285 / 2 ^ 70"
    and s1: "fsin (7074237752028440 / 2 ^ 51) = 4967757600021511 / 2 ^ 105"
  shows "kepler_solver_double fsin (7074254294673575 / 2 ^ 51) (9007199254740991 / 2 ^ 53) = None"
proof -
  define M :: real where "M = 7074254294673575 / 2 ^ 51"
  define e :: real where "e = 9007199254740991 / 2 ^ 53"
  define P :: real where "P = 7074237752028440 / 2 ^ 51"
  define d :: real where "d = 8673110332538880 / 2 ^ 70"
  define cyc where "cyc E last_diff \<longleftrightarrow>
      (E = M \<and> last_diff = 1) \<or> (E = P \<and> last_diff = d) \<or> (E = M \<and> last_diff = d)"
    for E last_diff :: real
  have tol1: "round_double 0.0000001 < (1::real)"
    unfolding tolerance_double by simp
  have told: "round_double 0.0000001 < d"
    unfolding tolerance_double d_def by simp
  have fromM: "round_double (M + round_double (e * fsin M)) = P"
    unfolding M_def e_def P_def s0 by (simp only: cycle_product_1 cycle_sum_1)
  have fromP: "round_double (M + round_double (e * fsin P)) = M"
    unfolding M_def e_def P_def s1 by (simp only: cycle_product_2 cycle_sum_2)
  have dPM: "\<bar>round_double (P - M)\<bar> = d"
    unfolding M_def P_def d_def by (simp only: cycle_diff_1) simp
  have dMP: "\<bar>round_double (M - P)\<bar> = d"
    unfolding M_def P_def d_def by (simp only: cycle_diff_2) simp
  have step: "\<exists>E' d'. cyc E' d'
      \<and> (if round_double 0.0000001 < last_diff
           then let E1 = round_double (M + round_double (e * fsin E))
                in g fsin M e E1 \<bar>round_double (E1 - E)\<bar>
           else Some E) = g fsin M e E' d'"
    if "cyc E last_diff" for E last_diff and g :: "(real \<Rightarrow> real) \<Rightarrow> real \<Rightarrow> real \<Rightarrow> real \<Rightarrow> real \<Rightarrow> real option"
  proof -
    from that consider "E = M" "last_diff = 1" | "E = P" "last_diff = d" | "E = M" "last_diff = d"
      unfolding cyc_def by blast
    then show ?thesis
    proof cases
      case 1
      have "cyc P d" by (simp add: cyc_def)
      then show ?thesis
        unfolding 1 Let_def fromM dPM using tol1 by auto
    next
      case 2
      have "cyc M d" by (simp add: cyc_def)
      then show ?thesis
        unfolding 2 Let_def fromP dMP using told by auto
    next
      case 3
      have "cyc P d" by (simp add: cyc_def)
      then show ?thesis
        unfolding 3 Let_def fromM dPM using told by auto
    qed
  qed
  define Q where "Q f M' e' E last_diff y \<longleftrightarrow>
      \<not> (f = fsin \<and> M' = M \<and> e' = e \<and> cyc E last_diff)"
    for f :: "real \<Rightarrow> real" and M' e' E last_diff y :: real
  have never: "Q f M' e' E last_diff y"
    if "kepler_loop_double f M' e' E last_diff = Some y" for f M' e' E last_diff y
  proof (rule kepler_loop_double.raw_induct [where P = Q, OF _ that])
    fix g f M' e' E last_diff y
    assume IH: "\<And>f M' e' E last_diff y. g f M' e' E last_diff = Some y \<Longrightarrow> Q f M' e' E last_diff y"
      and cur': "(if round_double 0.0000001 < last_diff
           then let E1 = round_double (M' + round_double (e' * f E))
                in g f M' e' E1 \<bar>round_double (E1 - E)\<bar>
           else Some E) = Some y"
    show "Q f M' e' E last_diff y"
      unfolding Q_def
    proof
      assume a: "f = fsin \<and> M' = M \<and> e' = e \<and> cyc E last_diff"
      then have eqs: "f = fsin" "M' = M" "e' = e" and c: "cyc E last_diff"
        by simp_all
      obtain E' d' where c': "cyc E' d'"
        and nxt: "(if round_double 0.0000001 < last_diff
           then let E1 = round_double (M + round_double (e * fsin E))
                in g fsin M e E1 \<bar>round_double (E1 - E)\<bar>
           else Some E) = g fsin M e E' d'"
        using step [OF c, of g] by blast
      have cur: "(if round_double 0.0000001 < last_diff
           then let E1 = round_double (M + round_double (e * fsin E))
                in g fsin M e E1 \<bar>round_double (E1 - E)\<bar>
           else Some E) = Some y"
        using cur' unfolding eqs .
      have "g fsin M e E' d' = Some y"
        using nxt [symmetric] cur by (rule trans)
      from IH [OF this] c' show False by (simp add: Q_def)
    qed
  qed
  have "cyc M 1" by (simp add: cyc_def)
  have "kepler_loop_double fsin M e M 1 = None"
  proof (cases "kepler_loop_double fsin M e M 1")
    case None
    then show ?thesis .
  next
    case (Some y)
    from never [OF this] \<open>cyc M 1\<close> show ?thesis by (simp add: Q_def)
  qed
  then show ?thesis
    by (simp add: kepler_solver_double_def M_def e_def)
qed

theorem kepler_loop_double_cycles_witness:
  "kepler_solver_double sin_table (7074254294673575 / 2 ^ 51) (9007199254740991 / 2 ^ 53) = None"
  by (rule kepler_loop_double_cycles) (simp_all add: sin_table_def)

text \<open>
  C7: on a circular orbit, \<open>e = 0\<close>, the solver returns \<open>M\<close> itself, the radius is the
  semi-major axis \<open>a\<close>, and the true anomaly differs from \<open>M\<close> by a multiple of
  \<open>2\<pi>\<close>. The last part is stated where \<open>tan(M/2)\<close> is defined, that is for
  \<open>cos(M/2) \<noteq> 0\<close>: at an odd multiple of \<open>\<pi>\<close> the tangent of real arithmetic has a
  pole, a point that no float is.
\<close>

theorem circular_orbit:
  "kepler_solver M 0 = Some M
   \<and> (\<exists>v. true_anomaly 0 M = Inr v
          \<and> (cos (M / 2) \<noteq> 0 \<longrightarrow> (\<exists>k::int. v = M + 2 * pi * of_int k)))
   \<and> (\<forall>v. radius a 0 v = Inr a)"
proof (intro conjI)
  show "kepler_solver M 0 = Some M"
    by (rule kepler_solver_fixed) simp
  have v: "true_anomaly 0 M = Inr (2 * arctan (tan (M / 2)))"
    using true_anomaly_elliptic [of 0 M] by simp
  have "\<exists>k::int. 2 * arctan (tan (M / 2)) = M + 2 * pi * of_int k" if nz: "cos (M / 2) \<noteq> 0"
  proof -
    obtain k :: int where "arctan (tan (M / 2)) = M / 2 + pi * of_int k"
      using arctan_tan_mod_pi [OF nz] by blast
    then have "2 * arctan (tan (M / 2)) = M + 2 * pi * of_int k" by simp
    then show ?thesis by blast
  qed
  with v show "\<exists>v. true_anomaly 0 M = Inr v
          \<and> (cos (M / 2) \<noteq> 0 \<longrightarrow> (\<exists>k::int. v = M + 2 * pi * of_int k))"
    by blast
  show "\<forall>v. radius a 0 v = Inr a"
    using radius_elliptic [of 0 a] by simp
qed

theorem circular_orbit_witness:
  "cos (1 / 2 :: real) \<noteq> 0 \<and> kepler_solver 1 0 = Some 1
   \<and> (\<exists>v. true_anomaly 0 1 = Inr v \<and> (\<exists>k::int. v = 1 + 2 * pi * of_int k))
   \<and> radius 3 0 1 = Inr 3"
proof -
  have "0 < cos (1 / 2 :: real)"
    using pi_ge_two by (intro cos_gt_zero) simp_all
  then have c: "cos (1 / 2 :: real) \<noteq> 0" by simp
  with circular_orbit [of 1 3] show ?thesis by auto
qed

subsection \<open>The position\<close>



text \<open>
  C2: the claim is that \<open>e = 1.0\<close> and \<open>e = -0.1\<close> are both rejected at once. The
  function has no check of \<open>e\<close>. With \<open>e = -0.1\<close> it returns coordinates: for
  \<open>a = 1\<close> and all other arguments 0 they are \<open>[164.5576581, 0, 0]\<close>.
\<close>

theorem negative_eccentricity_counterexample:
  "position_at_adalia_day 1 (- 0.1) 0 0 0 0 0 = Some (Inr [164.5576581, 0, 0])"
proof -
  have "kepler_solver 0 (- 0.1) = Some 0"
    by (rule kepler_solver_fixed) simp
  moreover have "true_anomaly (- 0.1) 0 = Inr 0"
    using true_anomaly_elliptic [of "- 0.1" 0] by simp
  moreover have "radius 1 (- 0.1) 0 = Inr 1.1"
    using radius_elliptic [of "- 0.1" 1 0] by (simp add: power2_eq_square)
  ultimately show ?thesis
    by (simp add: position_at_adalia_day_def mean_motion_pos cartesian_def AU_MULTIPLIER_def)
qed

text \<open>
  C2: as amended. The function never checks \<open>e\<close>. With \<open>e = 1.0\<close> no call returns
  coordinates; a call with \<open>a > 0\<close> whose loop ends raises the \<^verbatim>\<open>ZeroDivisionError\<close> of
  \<^verbatim>\<open>(1 + e) / (1 - e)\<close> on line 50, after the loop. With \<open>e = -0.1\<close> and \<open>a > 0\<close> no
  exception is raised: a call whose loop ends returns coordinates. The bounds keep the
  arguments where no operation on doubles overflows or underflows.
\<close>

theorem eccentricity_not_validated:
  assumes "1 / 10 ^ 100 \<le> a" "a \<le> 10 ^ 100"
    and "\<bar>o'\<bar> \<le> 10 ^ 100" "\<bar>w\<bar> \<le> 10 ^ 100" "\<bar>m\<bar> \<le> 10 ^ 100" "\<bar>aday\<bar> \<le> 10 ^ 100"
  shows "(\<forall>xyz. position_at_adalia_day a 1 i o' w m aday \<noteq> Some (Inr xyz))
     \<and> (position_at_adalia_day a 1 i o' w m aday = None
          \<or> position_at_adalia_day a 1 i o' w m aday = Some (Inl ZeroDivisionError))
     \<and> (\<forall>err. position_at_adalia_day a (- 0.1) i o' w m aday \<noteq> Some (Inl err))"
proof -
  have a: "0 < a" using assms(1) by (rule less_le_trans [rotated]) simp
  have one: "position_at_adalia_day a 1 i o' w m aday = Some (Inl ZeroDivisionError)"
    using a by (rule position_parabolic)
  obtain v r where
    "position_at_adalia_day a (- 0.1) i o' w m aday = Some (Inr (cartesian r i o' (w + o') v))"
    using position_elliptic [of a "- 0.1" i o' w m aday] a by auto
  with one show ?thesis by simp
qed

theorem eccentricity_not_validated_witness:
  "position_at_adalia_day 1 1 0 0 0 0 0 \<noteq> Some (Inr [0, 0, 0])
   \<and> (position_at_adalia_day 1 1 0 0 0 0 0 = None
        \<or> position_at_adalia_day 1 1 0 0 0 0 0 = Some (Inl ZeroDivisionError))
   \<and> position_at_adalia_day 1 (- 0.1) 0 0 0 0 0 \<noteq> Some (Inl ValueError)"
  using eccentricity_not_validated [of 1 0 0 0 0 0] by simp

subsection \<open>The period\<close>

text \<open>
  C4: the claim is that the period is strictly increasing in \<open>a\<close>. The semi-major axes
  \<open>1\<close> and \<open>1.001\<close> have the same period, 365 days.
\<close>

theorem period_not_strict_counterexample:
  "(0::real) < 1 \<and> (1::real) < 1.001
   \<and> calculate_orbital_period 1 = Inr 365 \<and> calculate_orbital_period 1.001 = Inr 365"
  using period_1 period_1001 by simp

text \<open>
  C4: as amended. The period is non-decreasing: for \<open>0 < a1 < a2\<close> both periods
  exist and the one of \<open>a1\<close> is at most the one of \<open>a2\<close>. The bound on \<open>a2\<close> keeps the
  arguments where the computation on doubles does not overflow.
\<close>

theorem period_monotone:
  assumes "0 < a1" "a1 < a2" "a2 \<le> 10 ^ 100"
  shows "\<exists>T1 T2. calculate_orbital_period a1 = Inr T1 \<and> calculate_orbital_period a2 = Inr T2
           \<and> T1 \<le> T2"
proof -
  have "a1 ^ 3 \<le> a2 ^ 3"
    using assms(1,2) by (intro power_mono) simp_all
  then have "a1 ^ 3 / 0.000007495 \<le> a2 ^ 3 / 0.000007495"
    by (simp add: divide_right_mono)
  then have "\<lfloor>sqrt (a1 ^ 3 / 0.000007495)\<rfloor> \<le> \<lfloor>sqrt (a2 ^ 3 / 0.000007495)\<rfloor>"
    by (intro floor_mono) simp
  then show ?thesis
    using assms(1,2) by (simp add: calculate_orbital_period_nonneg)
qed

theorem period_monotone_witness:
  "\<exists>T1 T2. calculate_orbital_period 1 = Inr T1 \<and> calculate_orbital_period 2 = Inr T2
     \<and> T1 \<le> T2"
  using period_monotone [of 1 2] by simp

text \<open>
  C5: the claim is that every \<open>a \<le> 0\<close>, and \<open>a = 0\<close> in particular, is rejected.
  For \<open>a = 0\<close> the function returns the period 0.
\<close>

theorem period_zero_counterexample: "calculate_orbital_period 0 = Inr 0"
  by (simp add: calculate_orbital_period_nonneg)

text \<open>
  C5: as amended. There is no check of \<open>a\<close>. A negative \<open>a\<close> is rejected by the
  \<^verbatim>\<open>ValueError\<close> of \<^verbatim>\<open>math.sqrt\<close> on a negative number, for the \<open>a\<close> whose cube
  neither overflows nor underflows on doubles; \<open>a = 0\<close> is not rejected, its period is 0.
\<close>

theorem period_domain:
  "(- (10 ^ 100) \<le> a \<and> a \<le> - (1 / 10 ^ 100) \<longrightarrow> calculate_orbital_period a = Inl ValueError)
   \<and> calculate_orbital_period 0 = Inr 0"
proof (intro conjI impI)
  assume "- (10 ^ 100) \<le> a \<and> a \<le> - (1 / 10 ^ 100)"
  then have "a \<le> - (1 / 10 ^ 100)" by simp
  also have "\<dots> < 0" by simp
  finally show "calculate_orbital_period a = Inl ValueError"
    by (rule calculate_orbital_period_neg)
next
  show "calculate_orbital_period 0 = Inr 0"
    by (simp add: calculate_orbital_period_nonneg)
qed

theorem period_domain_witness:
  "calculate_orbital_period (- 1) = Inl ValueError \<and> calculate_orbital_period 0 = Inr 0"
  using period_domain [of "- 1"] by simp




subsection \<open>The time model\<close>

text \<open>
  C9: the claim is that the result is exactly the number of seconds since the epoch
  divided by 3600. The code divides by 60 twice, and on doubles that is another number: 5
  seconds after the start of the orbits it returns \<open>0.0013888888888888887\<close>, while
  \<open>5.0 / 3600\<close> is \<open>0.001388888888888889\<close>.
\<close>

theorem adalia_day_last_place_counterexample:
  "get_current_adalia_day_double False 1609459205000000 = 6405119470038038 / 2 ^ 62
   \<and> round_double (5 / 3600) = 6405119470038039 / 2 ^ 62"
proof -
  have "total_seconds (1609459205000000 - pendulum_parse_us START_ORBIT_TIMESTAMP) = 5"
    by (simp add: epoch_orbit_us total_seconds_def round_double_5)
  then have "get_current_adalia_day_double False 1609459205000000
      = round_double (round_double (5 / 60) / 60)"
    unfolding get_current_adalia_day_double_def Let_def by (simp only: if_False)
  also have "\<dots> = 6405119470038038 / 2 ^ 62"
    by (simp only: round_double_twelfth round_double_code_5)
  finally show ?thesis
    using round_double_exact_5 by (simp only: simp_thms)
qed

text \<open>
  C9: as amended. The result is the number of seconds since the epoch divided by 60
  twice, each quotient rounded; it is within \<open>2^-51\<close>, relatively, of the seconds divided
  by 3600. The epoch is the arrival when \<^verbatim>\<open>display_day\<close> is true and the start of the
  orbits when it is false.
\<close>

theorem adalia_day_double_close:
  "\<bar>get_current_adalia_day_double display_day now
      - real_of_int (now - pendulum_parse_us (if display_day then START_ARRIVAL_TIMESTAMP
                                               else START_ORBIT_TIMESTAMP)) / 10 ^ 6 / 3600\<bar>
   \<le> \<bar>real_of_int (now - pendulum_parse_us (if display_day then START_ARRIVAL_TIMESTAMP
                                               else START_ORBIT_TIMESTAMP)) / 10 ^ 6 / 3600\<bar> / 2 ^ 51"
proof -
  define us where "us = now - pendulum_parse_us (if display_day then START_ARRIVAL_TIMESTAMP
                                                  else START_ORBIT_TIMESTAMP)"
  define X where "X = real_of_int us / 10 ^ 6"
  have code: "get_current_adalia_day_double display_day now
      = round_double (round_double (round_double X / 60) / 60)"
    by (simp add: get_current_adalia_day_double_def Let_def total_seconds_def X_def us_def)
  have "\<bar>round_double (round_double (round_double X / 60) / 60) - X / 3600\<bar>
        \<le> \<bar>X / 3600\<bar> / 2 ^ 51"
  proof (cases "us = 0")
    case True
    then show ?thesis by (simp add: X_def round_double_def)
  next
    case False
    then have "1 \<le> \<bar>us\<bar>" by linarith
    then have "1 \<le> real_of_int \<bar>us\<bar>" by (simp only: of_int_1_le_iff)
    then have "1 \<le> \<bar>real_of_int us\<bar>" by simp
    then have "1 / 10 ^ 6 \<le> \<bar>X\<bar>"
      by (simp add: X_def divide_right_mono)
    then show ?thesis by (rule two_divisions_close)
  qed
  then show ?thesis
    unfolding code by (simp add: X_def us_def)
qed

theorem adalia_day_double_close_witness:
  "\<bar>get_current_adalia_day_double False 1609459205000000 - 5 / 3600\<bar> \<le> 5 / 3600 / 2 ^ 51
   \<and> \<bar>get_current_adalia_day_double True 1618668005000000 - 5 / 3600\<bar> \<le> 5 / 3600 / 2 ^ 51"
  using adalia_day_double_close [of False 1609459205000000]
    adalia_day_double_close [of True 1618668005000000]
  by (simp add: epoch_orbit_us epoch_arrival_us)

subsection \<open>The loader\<close>

text \<open>
  C10: when the file loads, a body whose period \<open>T\<close> is above 32767 has another
  number in the period column: the 16-bit value \<open>(T + 32768) mod 65536 - 32768\<close>.
\<close>

theorem period_column_narrowed:
  assumes "load_asteroids json_file now = Some (Inr df)"
    and "k < length json_file"
    and "calculate_orbital_period (orb_a (json_orbital (json_file ! k))) = Inr T"
    and "32767 < T"
  shows "sint (col_orbital_T df ! k) \<noteq> T
         \<and> sint (col_orbital_T df ! k) = (T + 32768) mod 65536 - 32768"
proof -
  obtain Ts where Ts: "orbital_periods (map json_orbital json_file) = Inr Ts"
    and col: "col_orbital_T df = map astype_int16 Ts"
    using load_asteroids_periods [OF assms(1)] by blast
  from orbital_periods_nth [OF Ts] assms(2)
  have len: "length Ts = length json_file"
    and "calculate_orbital_period (orb_a (map json_orbital json_file ! k)) = Inr (Ts ! k)"
    by simp_all
  with assms(2,3) have "Ts ! k = T" by simp
  with col len assms(2) have stored: "col_orbital_T df ! k = astype_int16 T" by simp
  have "(T + 32768) mod 65536 < 65536" by simp
  then have "(T + 32768) mod 65536 - 32768 \<noteq> T" using assms(4) by linarith
  with stored show ?thesis by (simp add: astype_int16_wraps)
qed

theorem period_column_narrowed_witness:
  "calculate_orbital_period 100 = Inr 365270
   \<and> (\<exists>df. load_asteroids [example_body] 1609459200 = Some (Inr df)
           \<and> sint (col_orbital_T df ! 0) = - 27946)"
proof -
  let ?df = "\<lparr>col_i = [1], col_r = [375142], col_baseName = [''Adalia Prime''],
       col_orbital = [\<lparr>orb_a = 100, orb_e = 0, orb_i = 0, orb_o = 0, orb_w = 0, orb_m = 0\<rparr>],
       col_customName = [[]], col_orbital_T = [- 27946 :: 16 word], col_pos = [[14959.7871 :: real, 0, 0]]\<rparr>"
  have T: "calculate_orbital_period (orb_a (json_orbital ([example_body] ! 0))) = Inr 365270"
    by (simp add: example_body_def period_100)
  have "sint (col_orbital_T ?df ! 0) = (365270 + 32768) mod 65536 - 32768"
    using period_column_narrowed [OF load_example _ T] by simp
  then have "sint (col_orbital_T ?df ! 0) = - 27946" by simp
  with load_example show ?thesis by (simp add: period_100)
qed

end
